theory Spec2Isabelle
  imports Main "HOL-Library.Sublist"
begin

section \<open>The ingestion pipeline of \<^verbatim>\<open>src/ingestion/ingest.py\<close>\<close>

text \<open>
  The script is sequential glue around four libraries: \<^verbatim>\<open>pathlib\<close> (directory
  enumeration), Docling (the parser), ChromaDB (the vector store) and LlamaIndex (chunking,
  embedding, indexing). The embedding below keeps the control flow of the three methods of
  \<^verbatim>\<open>IngestionPipeline\<close> and of its constructor as written, and threads one explicit
  \<open>world\<close> value through them: the file system, the process environment, the vector
  stores, the records handed to the structured logger and the sequence of library calls
  made so far. What the parser, the YAML loader and the embedder answer, and whether a
  library call fails for a reason of its own, are components of the world: the theorems
  hold for whatever they answer. The file system and the vector stores are modelled as far
  as the pipeline uses them.
\<close>

subsection \<open>Exceptions, log records, library calls\<close>

text \<open>
  A Python exception is its class name and its message; \<^verbatim>\<open>str(e)\<close> is the message.
  Only subclasses of \<^verbatim>\<open>Exception\<close> are meant: they are what the handlers of the
  source catch.
\<close>

datatype exn = Exn (exn_class: string) (exn_str: string)

datatype log_level = INFO | WARNING | ERROR

text \<open>
  The keyword arguments of a log call. \<open>JSeconds\<close> stands for a rounded wall-clock
  latency (\<^verbatim>\<open>round(time.time() - start, 2)\<close>), whose value is not modelled; the
  \<^verbatim>\<open>timestamp\<close> key of every record is left out for the same reason.
\<close>

datatype jvalue = JStr string | JInt int | JBool bool | JSeconds

record log_entry =
  level :: log_level
  message :: string
  kwargs :: "(string \<times> jvalue) list"

text \<open>The two ways \<^verbatim>\<open>create_vector_store\<close> reaches ChromaDB (lines 151-159).\<close>

datatype backend = Local string | Remote string int

text \<open>The library calls the pipeline makes, in the order it makes them.\<close>

datatype 'd event =
    Open_config string
  | Settings_embed_model string string
  | Settings_llm string string int
  | Settings_node_parser int int
  | New_DoclingReader
  | Load_data string
  | Makedirs string
  | PersistentClient string
  | HttpClient string int
  | Delete_collection backend string
  | Get_or_create_collection backend string
  | From_documents "'d list" backend string

subsection \<open>Configuration\<close>

text \<open>
  The YAML document read by the constructor. The keys the source reads with
  \<^verbatim>\<open>config[...][...]\<close> are fields; the two keys it reads with \<^verbatim>\<open>.get\<close> and a
  default (\<^verbatim>\<open>logging.level\<close>, \<^verbatim>\<open>vector_db.persist_directory\<close>) are optional,
  \<open>None\<close> meaning that the key is absent (a key present with a null value is not
  modelled). A document that lacks one of the other keys is not a value of this type (the
  source would raise \<^verbatim>\<open>KeyError\<close> at the access), nor is one whose values have other
  types than these.
  The temperature is kept in thousandths.
\<close>

record config =
  logging_level :: "string option"
  embedding_model :: string
  embedding_api_key_env :: string
  llm_model :: string
  llm_temperature :: int
  chunking_chunk_size :: int
  chunking_chunk_overlap :: int
  ingestion_data_directory :: string
  ingestion_supported_formats :: "string list"
  vector_db_host :: string
  vector_db_port :: int
  vector_db_collection_name :: string
  vector_db_persist_directory :: "string option"

subsection \<open>The world\<close>

text \<open>
  A path names nothing, a regular file, a directory with its entries in the order the
  operating system enumerates them, or a directory whose enumeration raises.
\<close>

datatype node = File | Dir "string list" | Unreadable exn

text \<open>
  \<^item> \<open>fs\<close>: the file system, by path (paths are strings in normalised form);
  \<^item> \<open>glob_other\<close>: what \<^verbatim>\<open>Path.glob\<close> answers for a pattern outside the fragment
    modelled below;
  \<^item> \<open>load_data\<close>: what \<^verbatim>\<open>DoclingReader.load_data(file_path=p)\<close> answers: the
    documents of the file, or the exception it raises;
  \<^item> \<open>environ\<close>: the process environment;
  \<^item> \<open>yaml_load\<close>: what opening and parsing the configuration file at a path answers;
  \<^item> \<open>set_level\<close>: the exception, if any, of
    \<^verbatim>\<open>setLevel(getattr(logging, level))\<close> for a level name;
  \<^item> \<open>fault\<close>: the exception, if any, with which a library call fails for a reason of
    its own (connection lost, permission denied, quota);
  \<^item> \<open>embed\<close>: what \<^verbatim>\<open>VectorStoreIndex.from_documents\<close> writes for a list of
    documents (one entry per embedded chunk), and the exception that interrupts it, if any;
  \<^item> \<open>stores\<close>: the ChromaDB instances, each a map from collection names to the entries
    of the collection;
  \<^item> \<open>logged\<close>: the records handed to \<^verbatim>\<open>StructuredLogger._log\<close>, oldest first;
  \<^item> \<open>calls\<close>: the library calls made, oldest first.
\<close>

record ('d, 'v) world =
  fs :: "string \<rightharpoonup> node"
  glob_other :: "string \<Rightarrow> string \<Rightarrow> exn + string list"
  load_data :: "string \<Rightarrow> exn + 'd list"
  environ :: "string \<rightharpoonup> string"
  yaml_load :: "string \<Rightarrow> exn + config"
  set_level :: "string \<Rightarrow> exn option"
  fault :: "'d event \<Rightarrow> exn option"
  embed :: "'d list \<Rightarrow> 'v list \<times> exn option"
  stores :: "backend \<rightharpoonup> (string \<rightharpoonup> 'v list)"
  logged :: "log_entry list"
  calls :: "'d event list"

subsection \<open>\<^verbatim>\<open>StructuredLogger\<close> (lines 26-53)\<close>

text \<open>
  \<^verbatim>\<open>_log\<close> builds one record and hands it to the \<^verbatim>\<open>logging\<close> backend, which
  drops it when its level is below the configured one. The model stops at the hand-over:
  \<open>logged\<close> holds every record built.
\<close>

definition log_call ::
  "log_level \<Rightarrow> string \<Rightarrow> (string \<times> jvalue) list \<Rightarrow> ('d, 'v) world \<Rightarrow> ('d, 'v) world" where
  "log_call lv msg kw w = w\<lparr>logged := logged w @ [\<lparr>level = lv, message = msg, kwargs = kw\<rparr>]\<rparr>"

definition logger_info ::
  "string \<Rightarrow> (string \<times> jvalue) list \<Rightarrow> ('d, 'v) world \<Rightarrow> ('d, 'v) world" where
  "logger_info = log_call INFO"

definition logger_error ::
  "string \<Rightarrow> (string \<times> jvalue) list \<Rightarrow> ('d, 'v) world \<Rightarrow> ('d, 'v) world" where
  "logger_error = log_call ERROR"

definition logger_warning ::
  "string \<Rightarrow> (string \<times> jvalue) list \<Rightarrow> ('d, 'v) world \<Rightarrow> ('d, 'v) world" where
  "logger_warning = log_call WARNING"

text \<open>A library call is recorded, then fails if the world says so.\<close>

definition invoke :: "'d event \<Rightarrow> ('d, 'v) world \<Rightarrow> exn option \<times> ('d, 'v) world" where
  "invoke ev w = (fault w ev, w\<lparr>calls := calls w @ [ev]\<rparr>)"

subsection \<open>\<^verbatim>\<open>Path.exists\<close> and \<^verbatim>\<open>Path.glob\<close>\<close>

text \<open>
  \<^verbatim>\<open>data_dir.glob(f"*.{ext}")\<close> is modelled for POSIX paths and for a pattern that is
  one path component built from literal characters, \<open>*\<close> and \<open>?\<close>. A pattern with
  \<open>/\<close> (several components), with \<open>[\<close> (a character class) or with \<open>**\<close> is left
  to \<open>glob_other\<close>. Within the fragment a name matches as \<^verbatim>\<open>fnmatch\<close> has it, case
  sensitively and with no special treatment of a leading dot: \<open>*\<close> stands for any run
  of characters, \<open>?\<close> for one character.
\<close>

fun fnmatch :: "string \<Rightarrow> string \<Rightarrow> bool" where
  "fnmatch [] [] = True"
| "fnmatch [] (x # xs) = False"
| "fnmatch (c # p) [] = (c = CHR ''*'' \<and> fnmatch p [])"
| "fnmatch (c # p) (x # xs) =
     (if c = CHR ''*'' then fnmatch p (x # xs) \<or> fnmatch (c # p) xs
      else (c = CHR ''?'' \<or> c = x) \<and> fnmatch p xs)"

fun double_star :: "string \<Rightarrow> bool" where
  "double_star (a # b # cs) = ((a = CHR ''*'' \<and> b = CHR ''*'') \<or> double_star (b # cs))"
| "double_star cs = False"

definition simple_pattern :: "string \<Rightarrow> bool" where
  "simple_pattern pat =
     (CHR ''/'' \<notin> set pat \<and> CHR ''['' \<notin> set pat \<and> \<not> double_star pat)"

text \<open>\<^verbatim>\<open>str(data_dir / name)\<close>.\<close>

definition joinpath :: "string \<Rightarrow> string \<Rightarrow> string" where
  "joinpath d name =
     (if d = ''.'' then name else if d = ''/'' then d @ name else d @ ''/'' @ name)"

text \<open>
  The paths a glob yields keep the enumeration order of the directory. On a path that is
  not a directory a glob yields nothing.
\<close>

definition glob :: "('d, 'v) world \<Rightarrow> string \<Rightarrow> string \<Rightarrow> exn + string list" where
  "glob w d pat =
     (if \<not> simple_pattern pat then glob_other w d pat
      else case fs w d of
             Some (Dir names) \<Rightarrow> Inr (map (joinpath d) (filter (fnmatch pat) names))
           | Some (Unreadable e) \<Rightarrow> Inl e
           | Some File \<Rightarrow> Inr []
           | None \<Rightarrow> Inr [])"

subsection \<open>\<^verbatim>\<open>IngestionPipeline.load_documents\<close> (lines 98-145)\<close>

text \<open>
  The pipeline object holds the configuration; its logger and its reader are the
  \<open>logged\<close> and \<open>load_data\<close> components of the world.
\<close>

record ingestion_pipeline =
  config :: config

text \<open>Lines 109-112: one glob per configured extension, appended in configuration order.\<close>

fun collect_file_paths ::
  "('d, 'v) world \<Rightarrow> string \<Rightarrow> string list \<Rightarrow> string list \<Rightarrow> exn + string list" where
  "collect_file_paths w data_dir [] file_paths = Inr file_paths"
| "collect_file_paths w data_dir (ext # exts) file_paths =
     (case glob w data_dir (''*.'' @ ext) of
        Inl e \<Rightarrow> Inl e
      | Inr matches \<Rightarrow> collect_file_paths w data_dir exts (file_paths @ matches))"

text \<open>Lines 121-134: the parser is called once per path; a failure is logged and skipped.\<close>

fun load_files ::
  "string list \<Rightarrow> 'd list \<Rightarrow> ('d, 'v) world \<Rightarrow> 'd list \<times> ('d, 'v) world" where
  "load_files [] documents w = (documents, w)"
| "load_files (file_path # rest) documents w =
     (let w1 = w\<lparr>calls := calls w @ [Load_data file_path]\<rparr> in
      case load_data w file_path of
        Inr docs \<Rightarrow>
          load_files rest (documents @ docs)
            (logger_info ''Loaded document''
               [(''file'', JStr file_path), (''num_docs'', JInt (int (length docs)))] w1)
      | Inl e \<Rightarrow>
          load_files rest documents
            (logger_error ''Failed to load document''
               [(''file'', JStr file_path), (''error'', JStr (exn_str e))] w1))"

definition load_documents ::
  "ingestion_pipeline \<Rightarrow> string \<Rightarrow> ('d, 'v) world \<Rightarrow> (exn + 'd list) \<times> ('d, 'v) world" where
  "load_documents self data_dir w =
     (if fs w data_dir = None then
        (Inr [], logger_error ''Data directory does not exist'' [(''path'', JStr data_dir)] w)
      else
        case collect_file_paths w data_dir (ingestion_supported_formats (config self)) [] of
          Inl e \<Rightarrow> (Inl e, logger_error ''Document loading failed'' [(''error'', JStr (exn_str e))] w)
        | Inr file_paths \<Rightarrow>
            if file_paths = [] then
              (Inr [], logger_warning ''No documents found'' [(''directory'', JStr data_dir)] w)
            else
              let w1 = logger_info ''Found documents''
                         [(''count'', JInt (int (length file_paths)))] w;
                  (documents, w2) = load_files file_paths [] w1
              in (Inr documents,
                  logger_info ''Document loading complete''
                    [(''total_documents'', JInt (int (length documents))),
                     (''latency_seconds'', JSeconds)] w2))"

subsection \<open>The constructor (lines 59-96)\<close>

text \<open>
  The configuration file is opened and parsed first, the logger is built and used once,
  and only then is the API key looked up. \<^verbatim>\<open>if not api_key\<close> holds for an unset
  variable and for an empty one. The constructor has no handler: every exception leaves it.
\<close>

definition init ::
  "string \<Rightarrow> ('d, 'v) world \<Rightarrow> (exn + ingestion_pipeline) \<times> ('d, 'v) world" where
  "init config_path w =
     (let w0 = w\<lparr>calls := calls w @ [Open_config config_path]\<rparr> in
      case yaml_load w config_path of
        Inl e \<Rightarrow> (Inl e, w0)
      | Inr cfg \<Rightarrow>
          (case set_level w (case logging_level cfg of None \<Rightarrow> ''INFO'' | Some l \<Rightarrow> l) of
             Some e \<Rightarrow> (Inl e, w0)
           | None \<Rightarrow>
               let w1 = logger_info ''Ingestion pipeline initialized''
                          [(''config'', JStr config_path)] w0;
                   not_set = Exn ''ValueError''
                          (''Environment variable '' @ embedding_api_key_env cfg @ '' not set'')
               in (case environ w (embedding_api_key_env cfg) of
                    None \<Rightarrow> (Inl not_set, w1)
                  | Some api_key \<Rightarrow>
                      if api_key = [] then (Inl not_set, w1)
                      else
                        (case invoke (Settings_embed_model (embedding_model cfg) api_key) w1 of
                           (Some e, w2) \<Rightarrow> (Inl e, w2)
                         | (None, w2) \<Rightarrow>
                        (case invoke (Settings_llm (llm_model cfg) api_key
                                        (llm_temperature cfg)) w2 of
                           (Some e, w3) \<Rightarrow> (Inl e, w3)
                         | (None, w3) \<Rightarrow>
                        (case invoke (Settings_node_parser (chunking_chunk_size cfg)
                                        (chunking_chunk_overlap cfg)) w3 of
                           (Some e, w4) \<Rightarrow> (Inl e, w4)
                         | (None, w4) \<Rightarrow>
                        (case invoke New_DoclingReader w4 of
                           (Some e, w5) \<Rightarrow> (Inl e, w5)
                         | (None, w5) \<Rightarrow>
                             (Inr \<lparr>config = cfg\<rparr>,
                              logger_info ''LlamaIndex and Docling configured successfully''
                                [] w5))))))))"

subsection \<open>The vector store, as the pipeline uses it\<close>

text \<open>
  \<^verbatim>\<open>os.makedirs(path, exist_ok=True)\<close>: nothing to do for a directory, an error for a
  regular file, a new empty directory otherwise (the listing of its parent is not
  tracked: nothing below reads it).
\<close>

definition os_makedirs :: "string \<Rightarrow> ('d, 'v) world \<Rightarrow> exn option \<times> ('d, 'v) world" where
  "os_makedirs path w =
     (case invoke (Makedirs path) w of
        (Some e, w1) \<Rightarrow> (Some e, w1)
      | (None, w1) \<Rightarrow>
          (case fs w1 path of
             None \<Rightarrow> (None, w1\<lparr>fs := (fs w1)(path \<mapsto> Dir [])\<rparr>)
           | Some File \<Rightarrow> (Some (Exn ''FileExistsError'' path), w1)
           | Some (Dir names) \<Rightarrow> (None, w1)
           | Some (Unreadable e) \<Rightarrow> (None, w1)))"

text \<open>
  \<^verbatim>\<open>chromadb.PersistentClient(path=...)\<close> opens the store kept under a directory and
  creates an empty one when there is none; \<^verbatim>\<open>chromadb.HttpClient(host=..., port=...)\<close>
  needs a server to answer. A client is the store it talks to.
\<close>

definition chromadb_PersistentClient ::
  "string \<Rightarrow> ('d, 'v) world \<Rightarrow> (exn + backend) \<times> ('d, 'v) world" where
  "chromadb_PersistentClient path w =
     (case invoke (PersistentClient path) w of
        (Some e, w1) \<Rightarrow> (Inl e, w1)
      | (None, w1) \<Rightarrow>
          (case stores w1 (Local path) of
             None \<Rightarrow> (Inr (Local path), w1\<lparr>stores := (stores w1)(Local path \<mapsto> Map.empty)\<rparr>)
           | Some collections \<Rightarrow> (Inr (Local path), w1)))"

definition chromadb_HttpClient ::
  "string \<Rightarrow> int \<Rightarrow> ('d, 'v) world \<Rightarrow> (exn + backend) \<times> ('d, 'v) world" where
  "chromadb_HttpClient host port w =
     (case invoke (HttpClient host port) w of
        (Some e, w1) \<Rightarrow> (Inl e, w1)
      | (None, w1) \<Rightarrow>
          (case stores w1 (Remote host port) of
             None \<Rightarrow> (Inl (Exn ''ValueError'' ''Could not connect to a Chroma server''), w1)
           | Some collections \<Rightarrow> (Inr (Remote host port), w1)))"

text \<open>
  \<^verbatim>\<open>delete_collection\<close> raises when the collection does not exist;
  \<^verbatim>\<open>get_or_create_collection\<close> returns the collection of that name, with the entries
  it has, and creates an empty one when there is none.
\<close>

definition delete_collection ::
  "backend \<Rightarrow> string \<Rightarrow> ('d, 'v) world \<Rightarrow> exn option \<times> ('d, 'v) world" where
  "delete_collection client name w =
     (case invoke (Delete_collection client name) w of
        (Some e, w1) \<Rightarrow> (Some e, w1)
      | (None, w1) \<Rightarrow>
          (case stores w1 client of
             None \<Rightarrow> (Some (Exn ''ValueError'' ''Could not connect to a Chroma server''), w1)
           | Some collections \<Rightarrow>
               (case collections name of
                  None \<Rightarrow>
                    (Some (Exn ''ValueError'' (''Collection '' @ name @ '' does not exist.'')), w1)
                | Some entries \<Rightarrow>
                    (None, w1\<lparr>stores := (stores w1)(client \<mapsto> collections(name := None))\<rparr>))))"

definition get_or_create_collection ::
  "backend \<Rightarrow> string \<Rightarrow> ('d, 'v) world \<Rightarrow> (exn + backend \<times> string) \<times> ('d, 'v) world" where
  "get_or_create_collection client name w =
     (case invoke (Get_or_create_collection client name) w of
        (Some e, w1) \<Rightarrow> (Inl e, w1)
      | (None, w1) \<Rightarrow>
          (case stores w1 client of
             None \<Rightarrow> (Inl (Exn ''ValueError'' ''Could not connect to a Chroma server''), w1)
           | Some collections \<Rightarrow>
               (case collections name of
                  None \<Rightarrow>
                    (Inr (client, name),
                     w1\<lparr>stores := (stores w1)(client \<mapsto> collections(name \<mapsto> []))\<rparr>)
                | Some entries \<Rightarrow> (Inr (client, name), w1))))"

text \<open>\<^verbatim>\<open>ChromaVectorStore(chroma_collection=...)\<close> wraps the collection handle.\<close>

record vector_store =
  chroma_client :: backend
  chroma_collection :: string

subsection \<open>\<^verbatim>\<open>IngestionPipeline.create_vector_store\<close> (lines 147-185)\<close>

text \<open>Line 152: \<^verbatim>\<open>config['vector_db'].get('persist_directory', './chroma_db')\<close>.\<close>

definition persist_dir :: "ingestion_pipeline \<Rightarrow> string" where
  "persist_dir self =
     (case vector_db_persist_directory (config self) of
        None \<Rightarrow> ''./chroma_db''
      | Some p \<Rightarrow> p)"

text \<open>Lines 151-159: the client is chosen by the configured host.\<close>

definition open_client ::
  "ingestion_pipeline \<Rightarrow> ('d, 'v) world \<Rightarrow> (exn + backend) \<times> ('d, 'v) world" where
  "open_client self w =
     (if vector_db_host (config self) = ''localhost'' then
        case os_makedirs (persist_dir self) w of
          (Some e, w1) \<Rightarrow> (Inl e, w1)
        | (None, w1) \<Rightarrow> chromadb_PersistentClient (persist_dir self) w1
      else chromadb_HttpClient (vector_db_host (config self)) (vector_db_port (config self)) w)"

text \<open>Lines 164-169: the deletion is tried only on reset, and its exception is dropped.\<close>

definition reset_collection ::
  "bool \<Rightarrow> backend \<Rightarrow> string \<Rightarrow> ('d, 'v) world \<Rightarrow> ('d, 'v) world" where
  "reset_collection reset client collection_name w =
     (if reset then
        case delete_collection client collection_name w of
          (None, w1) \<Rightarrow> logger_info ''Deleted existing collection'' [] w1
        | (Some e, w1) \<Rightarrow> w1
      else w)"

definition create_vector_store ::
  "ingestion_pipeline \<Rightarrow> bool \<Rightarrow> ('d, 'v) world \<Rightarrow> (exn + vector_store) \<times> ('d, 'v) world" where
  "create_vector_store self reset w =
     (case open_client self w of
        (Inl e, w1) \<Rightarrow>
          (Inl e, logger_error ''Failed to create vector store'' [(''error'', JStr (exn_str e))] w1)
      | (Inr client, w1) \<Rightarrow>
          let collection_name = vector_db_collection_name (config self);
              w2 = reset_collection reset client collection_name w1
          in (case get_or_create_collection client collection_name w2 of
               (Inl e, w3) \<Rightarrow>
                 (Inl e,
                  logger_error ''Failed to create vector store'' [(''error'', JStr (exn_str e))] w3)
             | (Inr (c, name), w3) \<Rightarrow>
                 (Inr \<lparr>chroma_client = c, chroma_collection = name\<rparr>,
                  logger_info ''Vector store ready'' [(''collection'', JStr collection_name)] w3)))"

subsection \<open>\<^verbatim>\<open>IngestionPipeline.run\<close> (lines 187-232)\<close>

text \<open>
  \<^verbatim>\<open>VectorStoreIndex.from_documents\<close> chunks and embeds the documents and adds one
  entry per chunk to the collection, under identifiers of its own making: the new entries
  stand after the ones the collection has. An exception may interrupt it after some
  entries are written.
\<close>

datatype 'd index = VectorStoreIndex vector_store "'d list"

definition add_entries ::
  "vector_store \<Rightarrow> 'v list \<Rightarrow> ('d, 'v) world \<Rightarrow> ('d, 'v) world" where
  "add_entries vs entries w =
     (case stores w (chroma_client vs) of
        None \<Rightarrow> w
      | Some collections \<Rightarrow>
          w\<lparr>stores := (stores w)(chroma_client vs \<mapsto>
               collections(chroma_collection vs \<mapsto>
                 (case collections (chroma_collection vs) of None \<Rightarrow> [] | Some old \<Rightarrow> old)
                 @ entries))\<rparr>)"

definition from_documents ::
  "'d list \<Rightarrow> vector_store \<Rightarrow> ('d, 'v) world \<Rightarrow> (exn + 'd index) \<times> ('d, 'v) world" where
  "from_documents documents vs w =
     (case invoke (From_documents documents (chroma_client vs) (chroma_collection vs)) w of
        (Some e, w1) \<Rightarrow> (Inl e, w1)
      | (None, w1) \<Rightarrow>
          (case embed w1 documents of
             (entries, Some e) \<Rightarrow> (Inl e, add_entries vs entries w1)
           | (entries, None) \<Rightarrow>
               (Inr (VectorStoreIndex vs documents), add_entries vs entries w1)))"

definition run ::
  "ingestion_pipeline \<Rightarrow> bool \<Rightarrow> ('d, 'v) world \<Rightarrow> (exn + 'd index option) \<times> ('d, 'v) world" where
  "run self reset w =
     (let w0 = logger_info ''Starting ingestion pipeline'' [(''reset_collection'', JBool reset)] w;
          data_dir = ingestion_data_directory (config self)
      in case load_documents self data_dir w0 of
           (Inl e, w1) \<Rightarrow>
             (Inl e, logger_error ''Ingestion pipeline failed'' [(''error'', JStr (exn_str e))] w1)
         | (Inr documents, w1) \<Rightarrow>
             if documents = [] then (Inr None, logger_error ''No documents loaded'' [] w1)
             else
               (case create_vector_store self reset w1 of
                  (Inl e, w2) \<Rightarrow>
                    (Inl e,
                     logger_error ''Ingestion pipeline failed'' [(''error'', JStr (exn_str e))] w2)
                | (Inr vector_store, w2) \<Rightarrow>
                    (case from_documents documents vector_store
                            (logger_info ''Building vector index...'' [] w2) of
                       (Inl e, w3) \<Rightarrow>
                         (Inl e,
                          logger_error ''Ingestion pipeline failed''
                            [(''error'', JStr (exn_str e))] w3)
                     | (Inr index, w3) \<Rightarrow>
                         (Inr (Some index),
                          logger_info ''Ingestion pipeline completed successfully''
                            [(''total_documents'', JInt (int (length documents))),
                             (''total_time_seconds'', JSeconds)]
                            (logger_info ''Vector index built successfully''
                               [(''latency_seconds'', JSeconds)] w3)))))"

subsection \<open>What one pass of the loops contributes\<close>

text \<open>
  The functions of this subsection are used only to state properties. The first three
  are the documents one path adds to the result, the record one path adds to the log, and
  the paths one extension adds to \<^verbatim>\<open>file_paths\<close>.
\<close>

definition documents_of :: "(string \<Rightarrow> exn + 'd list) \<Rightarrow> string \<Rightarrow> 'd list" where
  "documents_of reader p = (case reader p of Inr docs \<Rightarrow> docs | Inl e \<Rightarrow> [])"

definition record_of :: "(string \<Rightarrow> exn + 'd list) \<Rightarrow> string \<Rightarrow> log_entry" where
  "record_of reader p =
     (case reader p of
        Inr docs \<Rightarrow> \<lparr>level = INFO, message = ''Loaded document'',
                     kwargs = [(''file'', JStr p), (''num_docs'', JInt (int (length docs)))]\<rparr>
      | Inl e \<Rightarrow> \<lparr>level = ERROR, message = ''Failed to load document'',
                   kwargs = [(''file'', JStr p), (''error'', JStr (exn_str e))]\<rparr>)"

definition found :: "('d, 'v) world \<Rightarrow> string \<Rightarrow> string \<Rightarrow> string list" where
  "found w d ext = (case glob w d (''*.'' @ ext) of Inr ps \<Rightarrow> ps | Inl e \<Rightarrow> [])"

text \<open>An extension without glob metacharacters and without a path separator.\<close>

definition plain :: "string \<Rightarrow> bool" where
  "plain ext = (CHR ''*'' \<notin> set ext \<and> CHR ''?'' \<notin> set ext \<and> CHR ''['' \<notin> set ext \<and> CHR ''/'' \<notin> set ext)"

text \<open>A collection of a store exists and holds exactly these entries.\<close>

definition holds_entries ::
  "backend \<Rightarrow> string \<Rightarrow> 'v list \<Rightarrow> ('d, 'v) world \<Rightarrow> bool" where
  "holds_entries b name entries w =
     (case stores w b of None \<Rightarrow> False | Some collections \<Rightarrow> collections name = Some entries)"

text \<open>The calls that delete a collection.\<close>

fun is_delete :: "'d event \<Rightarrow> bool" where
  "is_delete (Delete_collection b name) = True"
| "is_delete ev = False"


subsection \<open>A concrete world\<close>

text \<open>
  A directory \<^verbatim>\<open>docs\<close> with three entries, of which the parser rejects the last; a
  regular file; an empty directory. Documents and store entries are strings here.
\<close>

definition demo_config :: config where
  "demo_config =
     \<lparr>logging_level = None,
      embedding_model = ''models/embedding-001'',
      embedding_api_key_env = ''GOOGLE_API_KEY'',
      llm_model = ''models/gemini-pro'',
      llm_temperature = 100,
      chunking_chunk_size = 500,
      chunking_chunk_overlap = 50,
      ingestion_data_directory = ''docs'',
      ingestion_supported_formats = [''pdf'', ''txt''],
      vector_db_host = ''localhost'',
      vector_db_port = 8000,
      vector_db_collection_name = ''n26'',
      vector_db_persist_directory = None\<rparr>"

definition demo_world :: "(string, string) world" where
  "demo_world =
     \<lparr>fs = [''docs'' \<mapsto> Dir [''a.txt'', ''b.pdf'', ''c.txt''], ''notes.txt'' \<mapsto> File,
            ''empty'' \<mapsto> Dir []],
      glob_other = (\<lambda>d pat. Inr []),
      load_data = (\<lambda>p. if p = ''docs/c.txt'' then Inl (Exn ''ConversionError'' ''corrupt'')
                        else Inr [p]),
      environ = Map.empty,
      yaml_load = (\<lambda>p. if p = ''config.yaml'' then Inr demo_config
                        else Inl (Exn ''FileNotFoundError'' p)),
      set_level = (\<lambda>name. None),
      fault = (\<lambda>ev. None),
      embed = (\<lambda>docs. (docs, None)),
      stores = Map.empty,
      logged = [],
      calls = []\<rparr>"

definition demo_pipeline :: ingestion_pipeline where
  "demo_pipeline = \<lparr>config = demo_config\<rparr>"

text \<open>
  Three variants of the configuration: a wildcard as the only extension, one extension
  listed twice, and the empty directory as data directory.
\<close>

definition star_pipeline :: ingestion_pipeline where
  "star_pipeline = \<lparr>config = demo_config\<lparr>ingestion_supported_formats := [''*'']\<rparr>\<rparr>"

definition twice_pipeline :: ingestion_pipeline where
  "twice_pipeline = \<lparr>config = demo_config\<lparr>ingestion_supported_formats := [''txt'', ''txt'']\<rparr>\<rparr>"

definition empty_pipeline :: ingestion_pipeline where
  "empty_pipeline = \<lparr>config = demo_config\<lparr>ingestion_data_directory := ''empty''\<rparr>\<rparr>"


definition used_world :: "(string, string) world" where
  "used_world =
     demo_world\<lparr>fs := (fs demo_world)(''./chroma_db'' \<mapsto> Dir [''chroma.sqlite3'']),
                stores := [Local ''./chroma_db'' \<mapsto> [''n26'' \<mapsto> [''old entry'']],
                           Remote ''chroma.internal'' 8000 \<mapsto> Map.empty]\<rparr>"

section \<open>Properties\<close>

subsection \<open>The two loops of \<^verbatim>\<open>load_documents\<close> in closed form\<close>

lemmas logger_defs = logger_info_def logger_error_def logger_warning_def log_call_def

lemma load_files_eq:
  "load_files ps docs w =
     (docs @ concat (map (documents_of (load_data w)) ps),
      w\<lparr>logged := logged w @ map (record_of (load_data w)) ps,
        calls := calls w @ map Load_data ps\<rparr>)"
proof (induction ps arbitrary: docs w)
  case Nil
  then show ?case by simp
next
  case (Cons p ps)
  show ?case
    by (cases "load_data w p")
       (simp_all add: Cons.IH Let_def logger_defs documents_of_def record_of_def)
qed

lemma glob_logged [simp]: "glob (w\<lparr>logged := l\<rparr>) = glob w"
  by (simp add: glob_def fun_eq_iff)

lemma collect_file_paths_Inr:
  "collect_file_paths w d exts acc = Inr paths \<Longrightarrow>
     paths = acc @ concat (map (found w d) exts) \<and>
     (\<forall>ext \<in> set exts. \<exists>ps. glob w d (''*.'' @ ext) = Inr ps)"
proof (induction exts arbitrary: acc)
  case Nil
  then show ?case by simp
next
  case (Cons ext exts)
  show ?case
  proof (cases "glob w d (''*.'' @ ext)")
    case (Inl e)
    with Cons.prems show ?thesis by simp
  next
    case (Inr b)
    with Cons.prems have "collect_file_paths w d exts (acc @ b) = Inr paths" by simp
    from Cons.IH [OF this] Inr show ?thesis by (simp add: found_def)
  qed
qed

lemma load_documents_Inr:
  assumes "fs w d \<noteq> None"
    and "collect_file_paths w d (ingestion_supported_formats (config self)) [] = Inr paths"
  shows "fst (load_documents self d w) = Inr (concat (map (documents_of (load_data w)) paths))"
    and "calls (snd (load_documents self d w)) = calls w @ map Load_data paths"
    and "filter (\<lambda>r. level r = ERROR) (logged (snd (load_documents self d w))) =
         filter (\<lambda>r. level r = ERROR) (logged w @ map (record_of (load_data w)) paths)"
  using assms
  by (auto simp: load_documents_def load_files_eq logger_defs Let_def)

subsection \<open>Matching a plain extension is a suffix test\<close>

lemma fnmatch_literal:
  "CHR ''*'' \<notin> set p \<Longrightarrow> CHR ''?'' \<notin> set p \<Longrightarrow> fnmatch p n = (n = p)"
  by (induction p n rule: fnmatch.induct) auto

lemma fnmatch_star: "fnmatch (CHR ''*'' # p) n = (\<exists>s. suffix s n \<and> fnmatch p s)"
proof (induction n)
  case Nil
  then show ?case by simp
next
  case (Cons x xs)
  then show ?case by (auto simp: suffix_Cons)
qed

lemma no_double_star: "CHR ''*'' \<notin> set s \<Longrightarrow> \<not> double_star (c # s)"
  by (induction s arbitrary: c) auto

lemma plain_simple: "plain ext \<Longrightarrow> simple_pattern (''*.'' @ ext)"
  using no_double_star [of ext "CHR ''.''"] by (simp add: plain_def simple_pattern_def)

lemma plain_fnmatch: "plain ext \<Longrightarrow> fnmatch (''*.'' @ ext) n = suffix (''.'' @ ext) n"
  using fnmatch_literal [of "''.'' @ ext"] by (auto simp: fnmatch_star plain_def)

lemma found_simple:
  "simple_pattern (''*.'' @ ext) \<Longrightarrow>
     found w d ext = (case fs w d of Some (Dir names) \<Rightarrow> map (joinpath d) (filter (fnmatch (''*.'' @ ext)) names) | _ \<Rightarrow> [])"
  by (simp add: found_def glob_def split: option.splits node.splits)

lemma load_documents_calls:
  "\<exists>paths. calls (snd (load_documents self d w)) = calls w @ map Load_data paths \<and>
     (fs w d \<noteq> None \<longrightarrow> (\<forall>ps. collect_file_paths w d (ingestion_supported_formats (config self)) [] = Inr ps \<longrightarrow> paths = ps)) \<and>
     (fs w d = None \<longrightarrow> paths = [])"
proof (cases "fs w d = None")
  case True
  then show ?thesis by (simp add: load_documents_def logger_defs)
next
  case False
  show ?thesis
  proof (cases "collect_file_paths w d (ingestion_supported_formats (config self)) []")
    case (Inl e)
    with False show ?thesis by (simp add: load_documents_def logger_defs)
  next
    case (Inr ps)
    with False show ?thesis
      by (cases "ps = []") (simp_all add: load_documents_def logger_defs load_files_eq)
  qed
qed

lemma load_documents_frame:
  "stores (snd (load_documents self d w)) = stores w"
  "fs (snd (load_documents self d w)) = fs w"
  "fault (snd (load_documents self d w)) = fault w"
  "embed (snd (load_documents self d w)) = embed w"
  by (auto simp: load_documents_def logger_defs load_files_eq split: sum.splits)

subsection \<open>The concrete world, evaluated\<close>

lemmas demo_defs = demo_world_def demo_pipeline_def demo_config_def star_pipeline_def
  twice_pipeline_def empty_pipeline_def
lemmas glob_defs = glob_def simple_pattern_def joinpath_def

lemma demo_paths:
  "collect_file_paths demo_world ''docs'' (ingestion_supported_formats (config demo_pipeline)) []
     = Inr ([''docs/b.pdf'', ''docs/a.txt''] @ ''docs/c.txt'' # [])"
  by (simp add: demo_pipeline_def demo_config_def demo_world_def glob_def simple_pattern_def
        joinpath_def)

lemma twice_paths:
  "collect_file_paths demo_world ''docs'' (ingestion_supported_formats (config twice_pipeline)) []
     = Inr [''docs/a.txt'', ''docs/c.txt'', ''docs/a.txt'', ''docs/c.txt'']"
  by (simp add: demo_defs glob_defs)

subsection \<open>Counting and empty enumerations\<close>

lemma count_list_concat:
  "count_list (concat xss) x = sum_list (map (\<lambda>xs. count_list xs x) xss)"
  by (induction xss) simp_all

lemma count_list_times_le:
  "count_list xs a * f a \<le> sum_list (map f xs)" for f :: "'a \<Rightarrow> nat"
  by (induction xs) auto

lemma collect_nothing:
  assumes "fs w d = Some File \<or> fs w d = Some (Dir [])"
    and "\<forall>ext \<in> set exts. simple_pattern (''*.'' @ ext)"
  shows "collect_file_paths w d exts acc = Inr acc"
  using assms by (induction exts arbitrary: acc) (auto simp: glob_def)

subsection \<open>The store operations, one by one\<close>

lemmas store_defs = os_makedirs_def chromadb_PersistentClient_def chromadb_HttpClient_def
  delete_collection_def get_or_create_collection_def invoke_def

lemma holds_entries_logged [simp]:
  "holds_entries b n es (w\<lparr>logged := l\<rparr>) = holds_entries b n es w"
  "holds_entries b n es (w\<lparr>calls := c\<rparr>) = holds_entries b n es w"
  "holds_entries b n es (w\<lparr>fs := f\<rparr>) = holds_entries b n es w"
  by (simp_all add: holds_entries_def)

lemma os_makedirs_frame:
  "fault (snd (os_makedirs p w)) = fault w"
  "embed (snd (os_makedirs p w)) = embed w"
  "logged (snd (os_makedirs p w)) = logged w"
  "stores (snd (os_makedirs p w)) = stores w"
  "calls (snd (os_makedirs p w)) = calls w @ [Makedirs p]"
  by (simp_all add: os_makedirs_def invoke_def split: option.splits node.splits)


lemma PersistentClient_frame:
  "fault (snd (chromadb_PersistentClient p w)) = fault w"
  "embed (snd (chromadb_PersistentClient p w)) = embed w"
  "logged (snd (chromadb_PersistentClient p w)) = logged w"
  "fs (snd (chromadb_PersistentClient p w)) = fs w"
  "calls (snd (chromadb_PersistentClient p w)) = calls w @ [PersistentClient p]"
  "fst (chromadb_PersistentClient p w) = Inr c \<Longrightarrow>
     c = Local p \<and> stores (snd (chromadb_PersistentClient p w)) c \<noteq> None"
  "holds_entries b n es w \<Longrightarrow> holds_entries b n es (snd (chromadb_PersistentClient p w))"
  by (auto simp: chromadb_PersistentClient_def invoke_def holds_entries_def split: option.splits)

lemma HttpClient_frame:
  "fault (snd (chromadb_HttpClient h p w)) = fault w"
  "embed (snd (chromadb_HttpClient h p w)) = embed w"
  "logged (snd (chromadb_HttpClient h p w)) = logged w"
  "fs (snd (chromadb_HttpClient h p w)) = fs w"
  "stores (snd (chromadb_HttpClient h p w)) = stores w"
  "calls (snd (chromadb_HttpClient h p w)) = calls w @ [HttpClient h p]"
  "fst (chromadb_HttpClient h p w) = Inr c \<Longrightarrow>
     c = Remote h p \<and> stores (snd (chromadb_HttpClient h p w)) c \<noteq> None"
  by (auto simp: chromadb_HttpClient_def invoke_def split: option.splits)

lemma open_client_localhost:
  "vector_db_host (config self) = ''localhost'' \<Longrightarrow>
     open_client self w =
       (if fst (os_makedirs (persist_dir self) w) = None
        then chromadb_PersistentClient (persist_dir self) (snd (os_makedirs (persist_dir self) w))
        else (Inl (the (fst (os_makedirs (persist_dir self) w))),
              snd (os_makedirs (persist_dir self) w)))"
  by (cases "os_makedirs (persist_dir self) w") (auto simp: open_client_def)

lemma open_client_other:
  "vector_db_host (config self) \<noteq> ''localhost'' \<Longrightarrow>
     open_client self w =
       chromadb_HttpClient (vector_db_host (config self)) (vector_db_port (config self)) w"
  by (simp add: open_client_def)



lemma open_client_frame:
  "fault (snd (open_client self w)) = fault w"
  "embed (snd (open_client self w)) = embed w"
  "logged (snd (open_client self w)) = logged w"
  "filter is_delete (calls (snd (open_client self w))) = filter is_delete (calls w)"
  "holds_entries b n es w \<Longrightarrow> holds_entries b n es (snd (open_client self w))"
  "fst (open_client self w) = Inr c \<Longrightarrow> stores (snd (open_client self w)) c \<noteq> None"
proof -
  consider (l) "vector_db_host (config self) = ''localhost''"
    | (r) "vector_db_host (config self) \<noteq> ''localhost''" by blast
  note cs = this
  have hm: "holds_entries b n es (snd (os_makedirs p w)) = holds_entries b n es w" for p
    by (simp add: holds_entries_def os_makedirs_frame)
  have hh: "holds_entries b n es (snd (chromadb_HttpClient h p w)) = holds_entries b n es w" for h p
    by (simp add: holds_entries_def HttpClient_frame)
  show "fault (snd (open_client self w)) = fault w"
    by (cases rule: cs)
       (simp_all add: open_client_localhost open_client_other PersistentClient_frame
          os_makedirs_frame HttpClient_frame)
  show "embed (snd (open_client self w)) = embed w"
    by (cases rule: cs)
       (simp_all add: open_client_localhost open_client_other PersistentClient_frame
          os_makedirs_frame HttpClient_frame)
  show "logged (snd (open_client self w)) = logged w"
    by (cases rule: cs)
       (simp_all add: open_client_localhost open_client_other PersistentClient_frame
          os_makedirs_frame HttpClient_frame)
  show "filter is_delete (calls (snd (open_client self w))) = filter is_delete (calls w)"
    by (cases rule: cs)
       (simp_all add: open_client_localhost open_client_other PersistentClient_frame
          os_makedirs_frame HttpClient_frame)
  show "holds_entries b n es (snd (open_client self w))" if "holds_entries b n es w"
    using that PersistentClient_frame(7) [of b n es "snd (os_makedirs (persist_dir self) w)"]
    by (cases rule: cs) (simp_all add: open_client_localhost open_client_other hm hh)
  show "stores (snd (open_client self w)) c \<noteq> None" if "fst (open_client self w) = Inr c"
    using that PersistentClient_frame(6) [of "persist_dir self" "snd (os_makedirs (persist_dir self) w)" c]
      HttpClient_frame(7) [of "vector_db_host (config self)" "vector_db_port (config self)" w c]
    by (cases rule: cs) (auto simp: open_client_localhost open_client_other split: if_splits)
qed

lemma reset_collection_frame:
  "fault (reset_collection reset c n w) = fault w"
  "embed (reset_collection reset c n w) = embed w"
  "fs (reset_collection reset c n w) = fs w"
  "calls (reset_collection reset c n w) = calls w @ (if reset then [Delete_collection c n] else [])"
  "filter (\<lambda>r. level r = ERROR) (logged (reset_collection reset c n w)) =
     filter (\<lambda>r. level r = ERROR) (logged w)"
  "(stores (reset_collection reset c n w) c = None) = (stores w c = None)"
  by (auto simp: reset_collection_def store_defs logger_defs split: option.splits)

lemma reset_collection_False [simp]: "reset_collection False c n w = w"
  by (simp add: reset_collection_def)

lemma get_or_create_frame:
  "fault (snd (get_or_create_collection c n w)) = fault w"
  "embed (snd (get_or_create_collection c n w)) = embed w"
  "fs (snd (get_or_create_collection c n w)) = fs w"
  "logged (snd (get_or_create_collection c n w)) = logged w"
  "calls (snd (get_or_create_collection c n w)) = calls w @ [Get_or_create_collection c n]"
  "fst (get_or_create_collection c n w) = Inr h \<Longrightarrow> h = (c, n)"
  "holds_entries b m es w \<Longrightarrow> holds_entries b m es (snd (get_or_create_collection c n w))"
  by (auto simp: store_defs holds_entries_def split: option.splits)

lemma create_vector_store_eq:
  "create_vector_store self reset w =
     (case fst (open_client self w) of
        Inl e \<Rightarrow>
          (Inl e, logger_error ''Failed to create vector store'' [(''error'', JStr (exn_str e))]
                    (snd (open_client self w)))
      | Inr c \<Rightarrow>
          (let g = get_or_create_collection c (vector_db_collection_name (config self))
                     (reset_collection reset c (vector_db_collection_name (config self))
                        (snd (open_client self w)))
           in (case fst g of
                Inl e \<Rightarrow>
                  (Inl e, logger_error ''Failed to create vector store''
                            [(''error'', JStr (exn_str e))] (snd g))
              | Inr h \<Rightarrow>
                  (Inr \<lparr>chroma_client = c,
                        chroma_collection = vector_db_collection_name (config self)\<rparr>,
                   logger_info ''Vector store ready''
                     [(''collection'', JStr (vector_db_collection_name (config self)))] (snd g)))))"
proof (cases "open_client self w")
  case (Pair r w1)
  show ?thesis
  proof (cases r)
    case (Inl e)
    with Pair show ?thesis by (simp add: create_vector_store_def)
  next
    case (Inr c)
    obtain g w3 where g: "get_or_create_collection c (vector_db_collection_name (config self))
        (reset_collection reset c (vector_db_collection_name (config self)) w1) = (g, w3)"
      by (cases "get_or_create_collection c (vector_db_collection_name (config self))
        (reset_collection reset c (vector_db_collection_name (config self)) w1)") blast
    from get_or_create_frame(6) [of c "vector_db_collection_name (config self)"
        "reset_collection reset c (vector_db_collection_name (config self)) w1"] g
    have "g = Inr h \<Longrightarrow> h = (c, vector_db_collection_name (config self))" for h by simp
    with Pair Inr g show ?thesis
      by (cases g) (auto simp: create_vector_store_def Let_def)
  qed
qed

lemma create_vector_store_frame:
  "fault (snd (create_vector_store self reset w)) = fault w"
  "embed (snd (create_vector_store self reset w)) = embed w"
  "fs (snd (create_vector_store self reset w)) = fs (snd (open_client self w))"
  by (simp_all add: create_vector_store_eq Let_def logger_defs get_or_create_frame
        reset_collection_frame open_client_frame split: sum.splits)



lemmas vs_defs = create_vector_store_def open_client_def persist_dir_def reset_collection_def
  store_defs logger_defs







subsection \<open>Indexing and the whole run\<close>

lemma create_vector_store_no_reset:
  "holds_entries b n es w \<Longrightarrow> holds_entries b n es (snd (create_vector_store self False w))"
  "filter is_delete (calls (snd (create_vector_store self False w))) = filter is_delete (calls w)"
  by (simp_all add: create_vector_store_eq Let_def logger_defs get_or_create_frame
        open_client_frame split: sum.splits)

lemma add_entries_extends:
  "holds_entries b n es w \<Longrightarrow> \<exists>more. holds_entries b n (es @ more) (add_entries vs entries w)"
proof (cases "chroma_client vs = b \<and> chroma_collection vs = n")
  case True
  assume "holds_entries b n es w"
  with True have "holds_entries b n (es @ entries) (add_entries vs entries w)"
    by (auto simp: holds_entries_def add_entries_def split: option.splits)
  then show ?thesis by blast
next
  case False
  assume "holds_entries b n es w"
  with False have "holds_entries b n (es @ []) (add_entries vs entries w)"
    by (auto simp: holds_entries_def add_entries_def split: option.splits)
  then show ?thesis by blast
qed

lemma add_entries_same:
  "holds_entries (chroma_client vs) (chroma_collection vs) es w \<Longrightarrow>
     holds_entries (chroma_client vs) (chroma_collection vs) (es @ entries) (add_entries vs entries w)"
  by (auto simp: holds_entries_def add_entries_def split: option.splits)

lemma add_entries_calls [simp]: "calls (add_entries vs entries w) = calls w"
  by (simp add: add_entries_def split: option.splits)

lemma from_documents_calls:
  "calls (snd (from_documents docs vs w)) =
     calls w @ [From_documents docs (chroma_client vs) (chroma_collection vs)]"
  by (simp add: from_documents_def invoke_def split: option.splits prod.splits)

lemma from_documents_extends:
  assumes "holds_entries b n es w"
  shows "\<exists>more. holds_entries b n (es @ more) (snd (from_documents docs vs w))"
proof (cases "fault w (From_documents docs (chroma_client vs) (chroma_collection vs))")
  case (Some e)
  with assms have "holds_entries b n (es @ []) (snd (from_documents docs vs w))"
    by (simp add: from_documents_def invoke_def)
  then show ?thesis by blast
next
  case None
  obtain entries err where e: "embed w docs = (entries, err)" by (cases "embed w docs") blast
  from assms have h: "holds_entries b n es (w\<lparr>calls := calls w @
      [From_documents docs (chroma_client vs) (chroma_collection vs)]\<rparr>)" by simp
  from add_entries_extends [OF h, of vs entries] None e show ?thesis
    by (cases err) (simp_all add: from_documents_def invoke_def)
qed

lemma from_documents_success:
  assumes "fst (from_documents docs vs w) = Inr ix"
    and "holds_entries (chroma_client vs) (chroma_collection vs) es w"
  shows "ix = VectorStoreIndex vs docs \<and>
         holds_entries (chroma_client vs) (chroma_collection vs) (es @ fst (embed w docs))
           (snd (from_documents docs vs w))"
proof -
  obtain entries err where e: "embed w docs = (entries, err)" by (cases "embed w docs") blast
  from assms(2) have h: "holds_entries (chroma_client vs) (chroma_collection vs) es
     (w\<lparr>calls := calls w @ [From_documents docs (chroma_client vs) (chroma_collection vs)]\<rparr>)"
    by simp
  from assms(1) e add_entries_same [OF h, of entries] show ?thesis
    by (cases "fault w (From_documents docs (chroma_client vs) (chroma_collection vs))"; cases err)
       (simp_all add: from_documents_def invoke_def)
qed


lemma run_eq:
  "run self reset w =
     (let l = load_documents self (ingestion_data_directory (config self))
                (logger_info ''Starting ingestion pipeline''
                   [(''reset_collection'', JBool reset)] w)
      in case fst l of
           Inl e \<Rightarrow>
             (Inl e, logger_error ''Ingestion pipeline failed'' [(''error'', JStr (exn_str e))]
                       (snd l))
         | Inr documents \<Rightarrow>
             if documents = [] then (Inr None, logger_error ''No documents loaded'' [] (snd l))
             else
               let v = create_vector_store self reset (snd l) in
               (case fst v of
                 Inl e \<Rightarrow>
                   (Inl e, logger_error ''Ingestion pipeline failed''
                             [(''error'', JStr (exn_str e))] (snd v))
               | Inr vector_store \<Rightarrow>
                   let x = from_documents documents vector_store
                             (logger_info ''Building vector index...'' [] (snd v)) in
                   (case fst x of
                     Inl e \<Rightarrow>
                       (Inl e, logger_error ''Ingestion pipeline failed''
                                 [(''error'', JStr (exn_str e))] (snd x))
                   | Inr index \<Rightarrow>
                       (Inr (Some index),
                        logger_info ''Ingestion pipeline completed successfully''
                          [(''total_documents'', JInt (int (length documents))),
                           (''total_time_seconds'', JSeconds)]
                          (logger_info ''Vector index built successfully''
                             [(''latency_seconds'', JSeconds)] (snd x))))))"
  by (simp add: run_def Let_def split: prod.splits sum.splits)

lemma no_delete_among_parser_calls [simp]: "filter is_delete (map Load_data ps) = []"
  by (induction ps) simp_all

lemma holds_entries_log_call [simp]:
  "holds_entries b n es (log_call lv msg kw w) = holds_entries b n es w"
  by (simp add: log_call_def)

lemma calls_log_call [simp]: "calls (log_call lv msg kw w) = calls w"
  by (simp add: log_call_def)

lemma embed_log_call [simp]: "embed (log_call lv msg kw w) = embed w"
  by (simp add: log_call_def)

lemmas logger_levels = logger_info_def logger_error_def logger_warning_def

lemma load_documents_holds:
  "holds_entries b n es (snd (load_documents self d w)) = holds_entries b n es w"
  by (simp add: holds_entries_def load_documents_frame)

lemma load_documents_no_delete:
  "filter is_delete (calls (snd (load_documents self d w))) = filter is_delete (calls w)"
  using load_documents_calls [of self d w] by auto

lemma from_documents_index:
  "fst (from_documents docs vs w) = Inr ix \<Longrightarrow> ix = VectorStoreIndex vs docs"
  by (auto simp: from_documents_def invoke_def split: option.splits prod.splits)

lemma used_world_run:
  "fst (run demo_pipeline False used_world) =
     Inr (Some (VectorStoreIndex
       \<lparr>chroma_client = Local ''./chroma_db'', chroma_collection = ''n26''\<rparr>
       [''docs/b.pdf'', ''docs/a.txt'']))"
  by (simp add: run_def load_documents_def from_documents_def add_entries_def used_world_def
        demo_defs glob_defs vs_defs Let_def)

subsection \<open>Per-file isolation\<close>

text \<open>
  Claim C1. When exactly one of the matched paths makes the parser raise and the parser
  answers for all the others, \<^verbatim>\<open>load_documents\<close> returns (it does not raise) the
  documents of the others, in order, and the call adds exactly one \<open>ERROR\<close> record: the
  one that names the failing path and carries the parser's message.
\<close>

theorem load_documents_isolates_one_failure:
  assumes "fs w data_dir \<noteq> None"
    and "collect_file_paths w data_dir (ingestion_supported_formats (config self)) []
           = Inr (before @ bad # after)"
    and "load_data w bad = Inl e"
    and "\<forall>p \<in> set (before @ after). load_data w p = Inr (docs_of p)"
  shows "fst (load_documents self data_dir w) = Inr (concat (map docs_of (before @ after))) \<and>
         filter (\<lambda>r. level r = ERROR) (logged (snd (load_documents self data_dir w))) =
           filter (\<lambda>r. level r = ERROR) (logged w) @
           [\<lparr>level = ERROR, message = ''Failed to load document'',
             kwargs = [(''file'', JStr bad), (''error'', JStr (exn_str e))]\<rparr>]"
proof -
  have ok: "map (documents_of (load_data w)) (before @ after) = map docs_of (before @ after)"
    using assms(4) by (intro map_cong) (auto simp: documents_of_def)
  have bad: "documents_of (load_data w) bad = []"
    using assms(3) by (simp add: documents_of_def)
  have quiet: "filter (\<lambda>r. level r = ERROR) (map (record_of (load_data w)) ps) = []"
    if "set ps \<subseteq> set (before @ after)" for ps
    using that assms(4) by (induction ps) (auto simp: record_of_def)
  have loud: "record_of (load_data w) bad =
      \<lparr>level = ERROR, message = ''Failed to load document'',
        kwargs = [(''file'', JStr bad), (''error'', JStr (exn_str e))]\<rparr>"
    using assms(3) by (simp add: record_of_def)
  from ok have ok': "concat (map (documents_of (load_data w)) before) @
      concat (map (documents_of (load_data w)) after) = concat (map docs_of (before @ after))"
    by (metis concat_append map_append)
  show ?thesis
    using load_documents_Inr(1,3) [OF assms(1,2)] bad loud quiet [of before] quiet [of after] ok'
    by simp
qed

theorem load_documents_isolates_one_failure_witness:
  "fst (load_documents demo_pipeline ''docs'' demo_world) = Inr [''docs/b.pdf'', ''docs/a.txt''] \<and>
   filter (\<lambda>r. level r = ERROR) (logged (snd (load_documents demo_pipeline ''docs'' demo_world))) =
     [\<lparr>level = ERROR, message = ''Failed to load document'',
       kwargs = [(''file'', JStr ''docs/c.txt''), (''error'', JStr ''corrupt'')]\<rparr>]"
proof -
  have h1: "fs demo_world ''docs'' \<noteq> None" by (simp add: demo_world_def)
  have h3: "load_data demo_world ''docs/c.txt'' = Inl (Exn ''ConversionError'' ''corrupt'')"
    by (simp add: demo_world_def)
  have h4: "\<forall>p \<in> set ([''docs/b.pdf'', ''docs/a.txt''] @ []).
              load_data demo_world p = Inr ((\<lambda>p. [p]) p)"
    by (simp add: demo_world_def)
  show ?thesis
    using load_documents_isolates_one_failure [OF h1 demo_paths h3 h4]
    by (simp add: demo_world_def)
qed

subsection \<open>Which paths reach the parser\<close>

text \<open>
  Claim C5 says that for every list of supported formats only files whose extension is in
  the list reach the parser. The source matches names with the glob pattern
  \<^verbatim>\<open>*.{ext}\<close>, so an extension that contains a glob metacharacter matches other
  names: with the single extension \<open>*\<close> the file \<^verbatim>\<open>a.txt\<close> is parsed although its
  name does not end in \<open>.*\<close>.
\<close>

theorem star_extension_counterexample:
  "ingestion_supported_formats (config star_pipeline) = [''*''] \<and>
   fs demo_world ''docs'' = Some (Dir [''a.txt'', ''b.pdf'', ''c.txt'']) \<and>
   calls (snd (load_documents star_pipeline ''docs'' demo_world)) =
     [Load_data ''docs/a.txt'', Load_data ''docs/b.pdf'', Load_data ''docs/c.txt''] \<and>
   \<not> suffix ''.*'' ''a.txt''"
  by (simp add: demo_defs glob_defs load_documents_def load_files_eq logger_defs suffix_def)

text \<open>
  Claim C5, amended. When no configured extension contains \<open>*\<close>, \<open>?\<close>, \<open>[\<close> or
  \<open>/\<close>, the parser is called only on entries of the data directory whose name ends in
  a dot followed by one of the configured extensions, compared character by character.
\<close>

theorem load_documents_parses_only_matching_names:
  assumes "\<forall>ext \<in> set (ingestion_supported_formats (config self)). plain ext"
  shows "\<exists>paths. calls (snd (load_documents self d w)) = calls w @ map Load_data paths \<and>
           (\<forall>p \<in> set paths. \<exists>names name ext.
              fs w d = Some (Dir names) \<and> name \<in> set names \<and>
              ext \<in> set (ingestion_supported_formats (config self)) \<and>
              suffix (''.'' @ ext) name \<and> p = joinpath d name)"
proof -
  from load_documents_calls [of self d w] obtain paths where
    c: "calls (snd (load_documents self d w)) = calls w @ map Load_data paths"
    and ex: "fs w d \<noteq> None \<longrightarrow> (\<forall>ps. collect_file_paths w d (ingestion_supported_formats (config self)) [] = Inr ps \<longrightarrow> paths = ps)"
    and nex: "fs w d = None \<longrightarrow> paths = []"
    by (elim exE conjE)
  have "\<exists>names name ext.
              fs w d = Some (Dir names) \<and> name \<in> set names \<and>
              ext \<in> set (ingestion_supported_formats (config self)) \<and>
              suffix (''.'' @ ext) name \<and> p = joinpath d name" if p: "p \<in> set paths" for p
  proof (cases "collect_file_paths w d (ingestion_supported_formats (config self)) []")
    case (Inl e)
    have "paths = []"
    proof (cases "fs w d = None")
      case True with nex show ?thesis by simp
    next
      case False
      with c Inl show ?thesis by (simp add: load_documents_def logger_defs)
    qed
    with p show ?thesis by simp
  next
    case (Inr ps)
    from p nex have ne: "fs w d \<noteq> None" by auto
    with ex Inr have "paths = ps" by simp
    with collect_file_paths_Inr [OF Inr] p obtain ext where
      ext: "ext \<in> set (ingestion_supported_formats (config self))" and pf: "p \<in> set (found w d ext)"
      by auto
    from ext assms have pl: "plain ext" by simp
    from pf found_simple [OF plain_simple [OF pl], of w d] obtain names where
      d: "fs w d = Some (Dir names)" and "p \<in> set (map (joinpath d) (filter (fnmatch (''*.'' @ ext)) names))"
      by (auto split: option.splits node.splits)
    then obtain name where "name \<in> set names" "fnmatch (''*.'' @ ext) name" "p = joinpath d name"
      by auto
    with d ext plain_fnmatch [OF pl] show ?thesis by blast
  qed
  with c show ?thesis by blast
qed

theorem load_documents_parses_only_matching_names_witness:
  "\<exists>paths. calls (snd (load_documents demo_pipeline ''docs'' demo_world)) =
       calls demo_world @ map Load_data paths \<and>
     list_all (\<lambda>p. \<exists>names name ext.
              fs demo_world ''docs'' = Some (Dir names) \<and> name \<in> set names \<and>
              ext \<in> set [''pdf'', ''txt''] \<and>
              suffix (''.'' @ ext) name \<and> p = joinpath ''docs'' name) paths"
proof -
  have h: "\<forall>ext \<in> set (ingestion_supported_formats (config demo_pipeline)). plain ext"
    by (simp add: demo_defs plain_def)
  show ?thesis
    using load_documents_parses_only_matching_names [OF h, of "''docs''" demo_world]
    by (simp add: list_all_iff demo_pipeline_def demo_config_def)
qed

subsection \<open>The order of the parser calls\<close>

text \<open>
  Claim C9 says that matched files reach the parser in the enumeration order of the
  directory. The source globs once per configured extension and appends: with the
  extensions \<open>pdf, txt\<close> and a directory enumerated as \<^verbatim>\<open>a.txt, b.pdf, c.txt\<close> the
  parser sees \<^verbatim>\<open>b.pdf\<close> first.
\<close>

theorem configured_order_counterexample:
  "fs demo_world ''docs'' = Some (Dir [''a.txt'', ''b.pdf'', ''c.txt'']) \<and>
   ingestion_supported_formats (config demo_pipeline) = [''pdf'', ''txt''] \<and>
   calls (snd (load_documents demo_pipeline ''docs'' demo_world)) =
     [Load_data ''docs/b.pdf'', Load_data ''docs/a.txt'', Load_data ''docs/c.txt''] \<and>
   fst (load_documents demo_pipeline ''docs'' demo_world) = Inr [''docs/b.pdf'', ''docs/a.txt''] \<and>
   \<not> subseq [''docs/b.pdf'', ''docs/a.txt'', ''docs/c.txt'']
        (map (joinpath ''docs'') [''a.txt'', ''b.pdf'', ''c.txt''])"
  by (simp add: demo_defs glob_defs load_documents_def load_files_eq logger_defs documents_of_def)

text \<open>
  Claim C9, amended. When the enumeration succeeds, the paths are the concatenation, in
  the configured order of the extensions, of what each extension's glob yields; the parser
  is called on them in that order and the returned documents follow it. Within one
  extension the paths keep the enumeration order of the directory.
\<close>

theorem load_documents_order:
  assumes "fs w d \<noteq> None"
    and "collect_file_paths w d (ingestion_supported_formats (config self)) [] = Inr paths"
  shows "paths = concat (map (found w d) (ingestion_supported_formats (config self))) \<and>
         calls (snd (load_documents self d w)) = calls w @ map Load_data paths \<and>
         fst (load_documents self d w) = Inr (concat (map (documents_of (load_data w)) paths)) \<and>
         (\<forall>ext names. fs w d = Some (Dir names) \<and> simple_pattern (''*.'' @ ext) \<longrightarrow>
            found w d ext = map (joinpath d) (filter (fnmatch (''*.'' @ ext)) names))"
  using collect_file_paths_Inr [OF assms(2)] load_documents_Inr(1,2) [OF assms]
  by (simp add: found_simple)

theorem load_documents_order_witness:
  "[''docs/b.pdf'', ''docs/a.txt'', ''docs/c.txt''] =
     concat (map (found demo_world ''docs'') [''pdf'', ''txt'']) \<and>
   calls (snd (load_documents demo_pipeline ''docs'' demo_world)) =
     map Load_data [''docs/b.pdf'', ''docs/a.txt'', ''docs/c.txt''] \<and>
   fst (load_documents demo_pipeline ''docs'' demo_world) = Inr [''docs/b.pdf'', ''docs/a.txt''] \<and>
   found demo_world ''docs'' ''txt'' = [''docs/a.txt'', ''docs/c.txt'']"
proof -
  have h1: "fs demo_world ''docs'' \<noteq> None" by (simp add: demo_world_def)
  note t = load_documents_order [OF h1 demo_paths]
  have d: "fs demo_world ''docs'' = Some (Dir [''a.txt'', ''b.pdf'', ''c.txt''])"
    by (simp add: demo_world_def)
  have s: "simple_pattern (''*.'' @ ''txt'')" by (simp add: simple_pattern_def)
  have f: "ingestion_supported_formats (config demo_pipeline) = [''pdf'', ''txt'']"
    by (simp add: demo_defs)
  have c: "calls demo_world = []" by (simp add: demo_world_def)
  have l: "documents_of (load_data demo_world) = (\<lambda>p. if p = ''docs/c.txt'' then [] else [p])"
    by (simp add: demo_world_def documents_of_def fun_eq_iff)
  have 1: "[''docs/b.pdf'', ''docs/a.txt'', ''docs/c.txt''] =
     concat (map (found demo_world ''docs'') [''pdf'', ''txt''])"
    using t [THEN conjunct1] by (simp add: f)
  have 2: "calls (snd (load_documents demo_pipeline ''docs'' demo_world)) =
     map Load_data [''docs/b.pdf'', ''docs/a.txt'', ''docs/c.txt'']"
    using t [THEN conjunct2, THEN conjunct1] by (simp add: c)
  have 3: "fst (load_documents demo_pipeline ''docs'' demo_world) =
     Inr [''docs/b.pdf'', ''docs/a.txt'']"
    using t [THEN conjunct2, THEN conjunct2, THEN conjunct1] by (simp add: l)
  from t [THEN conjunct2, THEN conjunct2, THEN conjunct2] d s
  have "found demo_world ''docs'' ''txt'' =
     map (joinpath ''docs'') (filter (fnmatch (''*.'' @ ''txt'')) [''a.txt'', ''b.pdf'', ''c.txt''])"
    by blast
  then have 4: "found demo_world ''docs'' ''txt'' = [''docs/a.txt'', ''docs/c.txt'']"
    by (simp add: joinpath_def)
  from 1 2 3 4 show ?thesis by blast
qed

subsection \<open>Repeated extensions\<close>

text \<open>
  Claim C10. Nothing removes duplicates: a path is passed to the parser as many times as
  it occurs in the globs of the configured extensions, counted with their repetitions, so
  at least once per occurrence of an extension that matches it, and its documents are
  returned once per call.
\<close>

theorem repeated_extension_repeats_files:
  assumes "fs w d \<noteq> None"
    and "collect_file_paths w d (ingestion_supported_formats (config self)) [] = Inr paths"
  shows "calls (snd (load_documents self d w)) = calls w @ map Load_data paths \<and>
         fst (load_documents self d w) = Inr (concat (map (documents_of (load_data w)) paths)) \<and>
         count_list paths p =
           sum_list (map (\<lambda>ext. count_list (found w d ext) p)
                      (ingestion_supported_formats (config self))) \<and>
         count_list (ingestion_supported_formats (config self)) ext * count_list (found w d ext) p
           \<le> count_list paths p"
proof -
  from collect_file_paths_Inr [OF assms(2)]
  have p: "paths = concat (map (found w d) (ingestion_supported_formats (config self)))"
    by simp
  have c: "count_list paths p =
           sum_list (map (\<lambda>ext. count_list (found w d ext) p)
                      (ingestion_supported_formats (config self)))"
    unfolding p by (simp add: count_list_concat comp_def)
  show ?thesis
    using load_documents_Inr(1,2) [OF assms] c
      count_list_times_le [of "ingestion_supported_formats (config self)" ext
        "\<lambda>ext. count_list (found w d ext) p"]
    by simp
qed

theorem repeated_extension_repeats_files_witness:
  "ingestion_supported_formats (config twice_pipeline) = [''txt'', ''txt''] \<and>
   calls (snd (load_documents twice_pipeline ''docs'' demo_world)) =
     map Load_data [''docs/a.txt'', ''docs/c.txt'', ''docs/a.txt'', ''docs/c.txt''] \<and>
   fst (load_documents twice_pipeline ''docs'' demo_world) = Inr [''docs/a.txt'', ''docs/a.txt''] \<and>
   2 * count_list (found demo_world ''docs'' ''txt'') ''docs/a.txt''
     \<le> count_list [''docs/a.txt'', ''docs/c.txt'', ''docs/a.txt'', ''docs/c.txt''] ''docs/a.txt''"
proof -
  have h1: "fs demo_world ''docs'' \<noteq> None" by (simp add: demo_world_def)
  have l: "load_data demo_world = (\<lambda>p. if p = ''docs/c.txt'' then Inl (Exn ''ConversionError'' ''corrupt'') else Inr [p])"
    by (simp add: demo_world_def)
  have c: "calls demo_world = []" by (simp add: demo_world_def)
  have f: "ingestion_supported_formats (config twice_pipeline) = [''txt'', ''txt'']"
    by (simp add: demo_defs)
  show ?thesis
    using repeated_extension_repeats_files [OF h1 twice_paths, of "''docs/a.txt''" "''txt''"]
    by (simp add: f c l documents_of_def)
qed

subsection \<open>Nothing to load\<close>

text \<open>
  Claim C6 says that every path that does not name an existing directory gets an error
  record. The source tests \<^verbatim>\<open>exists()\<close>: a path that names a regular file passes the
  test, nothing matches under it, and the record is the warning of line 115.
\<close>

theorem regular_file_counterexample:
  "fs demo_world ''notes.txt'' = Some File \<and>
   fst (load_documents demo_pipeline ''notes.txt'' demo_world) = Inr [] \<and>
   logged (snd (load_documents demo_pipeline ''notes.txt'' demo_world)) =
     [\<lparr>level = WARNING, message = ''No documents found'',
       kwargs = [(''directory'', JStr ''notes.txt'')]\<rparr>]"
  by (simp add: demo_defs glob_defs load_documents_def logger_defs)

text \<open>
  Claim C6, amended. A path that does not exist gives the empty list and the error record
  \<open>Data directory does not exist\<close>. A regular file or an empty directory gives the
  empty list and the warning \<open>No documents found\<close>, for extensions whose patterns are
  in the modelled fragment. In neither case does the call raise.
\<close>

theorem load_documents_nothing_to_load:
  "(fs w d = None \<longrightarrow>
      load_documents self d w =
        (Inr [], logger_error ''Data directory does not exist'' [(''path'', JStr d)] w)) \<and>
   ((fs w d = Some File \<or> fs w d = Some (Dir [])) \<and>
    (\<forall>ext \<in> set (ingestion_supported_formats (config self)). simple_pattern (''*.'' @ ext)) \<longrightarrow>
      load_documents self d w =
        (Inr [], logger_warning ''No documents found'' [(''directory'', JStr d)] w))"
proof (intro conjI impI)
  assume "fs w d = None"
  then show "load_documents self d w =
        (Inr [], logger_error ''Data directory does not exist'' [(''path'', JStr d)] w)"
    by (simp add: load_documents_def)
next
  assume a: "(fs w d = Some File \<or> fs w d = Some (Dir [])) \<and>
    (\<forall>ext \<in> set (ingestion_supported_formats (config self)). simple_pattern (''*.'' @ ext))"
  then have "collect_file_paths w d (ingestion_supported_formats (config self)) [] = Inr []"
    using collect_nothing by blast
  with a show "load_documents self d w =
        (Inr [], logger_warning ''No documents found'' [(''directory'', JStr d)] w)"
    by (auto simp: load_documents_def)
qed

theorem load_documents_nothing_to_load_witness:
  "load_documents demo_pipeline ''missing'' demo_world =
     (Inr [], logger_error ''Data directory does not exist'' [(''path'', JStr ''missing'')]
                demo_world) \<and>
   load_documents demo_pipeline ''empty'' demo_world =
     (Inr [], logger_warning ''No documents found'' [(''directory'', JStr ''empty'')]
                demo_world)"
proof -
  have 1: "fs demo_world ''missing'' = None" by (simp add: demo_world_def)
  have 2: "fs demo_world ''empty'' = Some File \<or> fs demo_world ''empty'' = Some (Dir [])"
    by (simp add: demo_world_def)
  have 3: "\<forall>ext \<in> set (ingestion_supported_formats (config demo_pipeline)).
             simple_pattern (''*.'' @ ext)"
    by (simp add: demo_defs simple_pattern_def)
  from load_documents_nothing_to_load [of demo_world "''missing''" demo_pipeline] 1
    load_documents_nothing_to_load [of demo_world "''empty''" demo_pipeline] 2 3
  show ?thesis by blast
qed

subsection \<open>A run with no documents\<close>

text \<open>
  Claim C2. When the call of \<^verbatim>\<open>load_documents\<close> inside \<^verbatim>\<open>run\<close> returns the empty
  list, \<^verbatim>\<open>run\<close> returns \<open>None\<close> without raising, its last log record is the error
  \<open>No documents loaded\<close>, the stores and the file system are untouched, and the only
  library calls made are parser calls: no client is opened, no collection is touched, no
  index is built. This holds for every configuration and both values of the reset flag.
\<close>

theorem run_without_documents:
  assumes "fst (load_documents self (ingestion_data_directory (config self))
             (logger_info ''Starting ingestion pipeline'' [(''reset_collection'', JBool reset)] w))
           = Inr []"
  shows "fst (run self reset w) = Inr None \<and>
         last (logged (snd (run self reset w))) =
           \<lparr>level = ERROR, message = ''No documents loaded'', kwargs = []\<rparr> \<and>
         stores (snd (run self reset w)) = stores w \<and>
         fs (snd (run self reset w)) = fs w \<and>
         (\<exists>paths. calls (snd (run self reset w)) = calls w @ map Load_data paths)"
proof -
  define w0 where "w0 = logger_info ''Starting ingestion pipeline''
    [(''reset_collection'', JBool reset)] w"
  define d where "d = ingestion_data_directory (config self)"
  obtain w1 where l: "load_documents self d w0 = (Inr [], w1)"
    using assms unfolding w0_def d_def by (cases "load_documents self
      (ingestion_data_directory (config self)) (logger_info ''Starting ingestion pipeline''
        [(''reset_collection'', JBool reset)] w)") auto
  have r: "run self reset w = (Inr None, logger_error ''No documents loaded'' [] w1)"
    using l unfolding w0_def d_def by (simp add: run_def)
  from load_documents_calls [of self d w0] obtain paths where
    "calls (snd (load_documents self d w0)) = calls w0 @ map Load_data paths"
    by (elim exE conjE)
  with l have c: "calls w1 = calls w @ map Load_data paths"
    by (simp add: w0_def logger_defs)
  from load_documents_frame(1,2) [of self d w0] l
  have f: "stores w1 = stores w" "fs w1 = fs w"
    by (simp_all add: w0_def logger_defs)
  show ?thesis using r c f by (auto simp: logger_defs)
qed

theorem run_without_documents_witness:
  "fst (run empty_pipeline True demo_world) = Inr None \<and>
   last (logged (snd (run empty_pipeline True demo_world))) =
     \<lparr>level = ERROR, message = ''No documents loaded'', kwargs = []\<rparr> \<and>
   stores (snd (run empty_pipeline True demo_world)) = stores demo_world \<and>
   fs (snd (run empty_pipeline True demo_world)) = fs demo_world \<and>
   (\<exists>paths. calls (snd (run empty_pipeline True demo_world)) =
      calls demo_world @ map Load_data paths)"
proof -
  have h: "fst (load_documents empty_pipeline (ingestion_data_directory (config empty_pipeline))
             (logger_info ''Starting ingestion pipeline'' [(''reset_collection'', JBool True)]
                demo_world)) = Inr []"
    by (simp add: demo_defs glob_defs load_documents_def logger_defs)
  from run_without_documents [OF h] show ?thesis .
qed

subsection \<open>The constructor and the API key\<close>

text \<open>
  Claim C7 says that the constructor fails before any file I/O when the API key is not
  set. The name of the variable is itself read from the configuration file: the file is
  opened and parsed (lines 61-62) before the environment is consulted (line 71).
\<close>

theorem config_read_first_counterexample:
  "yaml_load demo_world ''config.yaml'' = Inr demo_config \<and>
   environ demo_world (embedding_api_key_env demo_config) = None \<and>
   calls demo_world = [] \<and>
   fst (init ''config.yaml'' demo_world) =
     Inl (Exn ''ValueError'' ''Environment variable GOOGLE_API_KEY not set'') \<and>
   calls (snd (init ''config.yaml'' demo_world)) = [Open_config ''config.yaml'']"
  by (simp add: demo_defs init_def logger_defs)

text \<open>
  Claim C7, amended. When the variable named by \<^verbatim>\<open>embedding.api_key_env\<close> is unset or
  empty, the constructor raises; the only library call made is the reading of the
  configuration file, and neither the file system nor a store is changed. When the logger
  could be built, the exception is the \<^verbatim>\<open>ValueError\<close> of line 73 and the only record
  is the one of line 68.
\<close>

theorem init_requires_api_key:
  assumes "yaml_load w config_path = Inr cfg"
    and "environ w (embedding_api_key_env cfg) = None \<or>
         environ w (embedding_api_key_env cfg) = Some []"
  shows "isl (fst (init config_path w)) \<and>
         calls (snd (init config_path w)) = calls w @ [Open_config config_path] \<and>
         fs (snd (init config_path w)) = fs w \<and>
         stores (snd (init config_path w)) = stores w \<and>
         (set_level w (case logging_level cfg of None \<Rightarrow> ''INFO'' | Some l \<Rightarrow> l) = None \<longrightarrow>
            fst (init config_path w) =
              Inl (Exn ''ValueError''
                     (''Environment variable '' @ embedding_api_key_env cfg @ '' not set'')) \<and>
            logged (snd (init config_path w)) =
              logged w @ [\<lparr>level = INFO, message = ''Ingestion pipeline initialized'',
                           kwargs = [(''config'', JStr config_path)]\<rparr>])"
  using assms
  by (cases "set_level w (case logging_level cfg of None \<Rightarrow> ''INFO'' | Some l \<Rightarrow> l)")
     (auto simp: init_def logger_defs Let_def)

theorem init_requires_api_key_witness:
  "isl (fst (init ''config.yaml'' demo_world)) \<and>
   calls (snd (init ''config.yaml'' demo_world)) = calls demo_world @ [Open_config ''config.yaml''] \<and>
   fst (init ''config.yaml'' demo_world) =
     Inl (Exn ''ValueError'' ''Environment variable GOOGLE_API_KEY not set'') \<and>
   logged (snd (init ''config.yaml'' demo_world)) =
     [\<lparr>level = INFO, message = ''Ingestion pipeline initialized'',
       kwargs = [(''config'', JStr ''config.yaml'')]\<rparr>]"
proof -
  have h1: "yaml_load demo_world ''config.yaml'' = Inr demo_config" by (simp add: demo_world_def)
  have h2: "environ demo_world (embedding_api_key_env demo_config) = None \<or>
         environ demo_world (embedding_api_key_env demo_config) = Some []"
    by (simp add: demo_world_def)
  have h3: "set_level demo_world (case logging_level demo_config of None \<Rightarrow> ''INFO'' | Some l \<Rightarrow> l) = None"
    by (simp add: demo_world_def)
  have e: "embedding_api_key_env demo_config = ''GOOGLE_API_KEY''" by (simp add: demo_config_def)
  have l: "logged demo_world = []" by (simp add: demo_world_def)
  from init_requires_api_key [OF h1 h2] h3 show ?thesis by (simp add: e l)
qed

subsection \<open>Which backend is opened\<close>



subsection \<open>Reset\<close>



subsection \<open>Runs without reset\<close>

text \<open>
  Claim C4. With \<open>reset = False\<close> no \<^verbatim>\<open>delete_collection\<close> call is made, neither by
  \<^verbatim>\<open>create_vector_store\<close> nor by the whole run, and a collection that holds entries
  before still holds them after \<^verbatim>\<open>create_vector_store\<close>. After the run, whatever its
  outcome, the collection holds the entries it held, possibly followed by new ones; when
  the run returns an index over that collection, the collection holds the old entries
  followed by the ones written for the documents of this run.
\<close>

theorem no_reset_is_additive:
  assumes "holds_entries b n es w"
  shows "holds_entries b n es (snd (create_vector_store self False w)) \<and>
         filter is_delete (calls (snd (create_vector_store self False w))) =
           filter is_delete (calls w) \<and>
         (\<exists>more. holds_entries b n (es @ more) (snd (run self False w))) \<and>
         filter is_delete (calls (snd (run self False w))) = filter is_delete (calls w) \<and>
         (\<forall>vs docs. fst (run self False w) = Inr (Some (VectorStoreIndex vs docs)) \<and>
                    chroma_client vs = b \<and> chroma_collection vs = n \<longrightarrow>
            holds_entries b n (es @ fst (embed w docs)) (snd (run self False w)))"
proof -
  define l where "l = load_documents self (ingestion_data_directory (config self))
                (logger_info ''Starting ingestion pipeline''
                   [(''reset_collection'', JBool False)] w)"
  define v where "v = create_vector_store self False (snd l)"
  define x where "x = (\<lambda>docs vs. from_documents docs vs
                         (logger_info ''Building vector index...'' [] (snd v)))"
  have r: "run self False w =
     (case fst l of
           Inl e \<Rightarrow>
             (Inl e, logger_error ''Ingestion pipeline failed'' [(''error'', JStr (exn_str e))]
                       (snd l))
         | Inr documents \<Rightarrow>
             if documents = [] then (Inr None, logger_error ''No documents loaded'' [] (snd l))
             else
               (case fst v of
                 Inl e \<Rightarrow>
                   (Inl e, logger_error ''Ingestion pipeline failed''
                             [(''error'', JStr (exn_str e))] (snd v))
               | Inr vector_store \<Rightarrow>
                   (case fst (x documents vector_store) of
                     Inl e \<Rightarrow>
                       (Inl e, logger_error ''Ingestion pipeline failed''
                                 [(''error'', JStr (exn_str e))] (snd (x documents vector_store)))
                   | Inr index \<Rightarrow>
                       (Inr (Some index),
                        logger_info ''Ingestion pipeline completed successfully''
                          [(''total_documents'', JInt (int (length documents))),
                           (''total_time_seconds'', JSeconds)]
                          (logger_info ''Vector index built successfully''
                             [(''latency_seconds'', JSeconds)] (snd (x documents vector_store)))))))"
    unfolding l_def v_def x_def by (simp add: run_eq Let_def split: sum.splits)
  have hl: "holds_entries b n es (snd l)"
    using assms by (simp add: l_def load_documents_holds logger_levels)
  have hv: "holds_entries b n es (snd v)"
    using hl by (simp add: v_def create_vector_store_no_reset)
  have el: "embed (snd l) = embed w"
    by (simp add: l_def load_documents_frame logger_levels)
  have ev: "embed (snd v) = embed w"
    by (simp add: v_def create_vector_store_frame el)
  have hx: "\<exists>more. holds_entries b n (es @ more) (snd (x docs vs))" for docs vs
    unfolding x_def using hv by (intro from_documents_extends) (simp add: logger_levels)
  have hl': "\<exists>more. holds_entries b n (es @ more) (snd l)"
    using hl by (intro exI [of _ "[]"]) simp
  have hv': "\<exists>more. holds_entries b n (es @ more) (snd v)"
    using hv by (intro exI [of _ "[]"]) simp
  have cl: "filter is_delete (calls (snd l)) = filter is_delete (calls w)"
    by (simp add: l_def load_documents_no_delete logger_levels)
  have cv: "filter is_delete (calls (snd v)) = filter is_delete (calls w)"
    by (simp add: v_def create_vector_store_no_reset cl)
  have cx: "filter is_delete (calls (snd (x docs vs))) = filter is_delete (calls w)" for docs vs
    by (simp add: x_def from_documents_calls logger_levels cv)
  have 1: "holds_entries b n es (snd (create_vector_store self False w))"
    using assms by (rule create_vector_store_no_reset)
  have 2: "filter is_delete (calls (snd (create_vector_store self False w))) =
           filter is_delete (calls w)"
    by (rule create_vector_store_no_reset)
  have 3: "\<exists>more. holds_entries b n (es @ more) (snd (run self False w))"
    using hl' hv' hx by (simp add: r logger_levels split: sum.splits)
  have 4: "filter is_delete (calls (snd (run self False w))) = filter is_delete (calls w)"
    using cl cv cx by (simp add: r logger_levels split: sum.splits)
  have 5: "holds_entries b n (es @ fst (embed w docs)) (snd (run self False w))"
    if s: "fst (run self False w) = Inr (Some (VectorStoreIndex vs docs)) \<and>
           chroma_client vs = b \<and> chroma_collection vs = n" for vs docs
  proof -
    from s obtain documents vector_store ix where
      d: "fst l = Inr documents" "documents \<noteq> []" "fst v = Inr vector_store"
        "fst (x documents vector_store) = Inr ix" "ix = VectorStoreIndex vs docs"
      by (auto simp: r split: sum.splits if_splits)
    have fx: "fst (from_documents documents vector_store
        (logger_info ''Building vector index...'' [] (snd v))) = Inr ix"
      using d(4) by (simp add: x_def)
    from from_documents_index [OF fx] d(5) have eq: "vector_store = vs" "documents = docs"
      by simp_all
    from s hv eq have hb: "holds_entries (chroma_client vector_store)
        (chroma_collection vector_store) es
        (logger_info ''Building vector index...'' [] (snd v))"
      by (simp add: logger_levels)
    from from_documents_success [OF fx hb] eq s d show ?thesis
      by (simp add: r logger_levels ev x_def)
  qed
  from 1 2 3 4 5 show ?thesis by blast
qed

theorem no_reset_is_additive_witness:
  "holds_entries (Local ''./chroma_db'') ''n26'' [''old entry'']
     (snd (create_vector_store demo_pipeline False used_world)) \<and>
   filter is_delete (calls (snd (run demo_pipeline False used_world))) = [] \<and>
   holds_entries (Local ''./chroma_db'') ''n26'' [''old entry'', ''docs/b.pdf'', ''docs/a.txt'']
     (snd (run demo_pipeline False used_world))"
proof -
  have h: "holds_entries (Local ''./chroma_db'') ''n26'' [''old entry''] used_world"
    by (simp add: holds_entries_def used_world_def)
  have c: "calls used_world = []" and e: "embed used_world = (\<lambda>docs. (docs, None))"
    by (simp_all add: used_world_def demo_world_def)
  note t = no_reset_is_additive [OF h, of demo_pipeline]
  from t have 1: "holds_entries (Local ''./chroma_db'') ''n26'' [''old entry'']
     (snd (create_vector_store demo_pipeline False used_world))" by blast
  from t have 2: "filter is_delete (calls (snd (run demo_pipeline False used_world))) = []"
    by (simp add: c)
  from t used_world_run have
    "holds_entries (Local ''./chroma_db'') ''n26''
       ([''old entry''] @ fst (embed used_world [''docs/b.pdf'', ''docs/a.txt'']))
       (snd (run demo_pipeline False used_world))"
    by simp
  then have 3: "holds_entries (Local ''./chroma_db'') ''n26''
       [''old entry'', ''docs/b.pdf'', ''docs/a.txt'']
       (snd (run demo_pipeline False used_world))"
    by (simp add: e)
  from 1 2 3 show ?thesis by blast
qed

end
